theory Spec2Isabelle
  imports Main
begin

section \<open>JavaScript strings\<close>

text \<open>
  A JavaScript string is a sequence of UTF-16 code units. The program compares, searches
  and rewrites strings that hold Japanese text, so a string is modelled as the list of its
  code units, each an integer from 0 to 65535; \<open>asc\<close> writes an ASCII literal.
  \<open>toLowerCase\<close> is modelled on the ASCII letters (kana and kanji have no case).
\<close>

type_synonym jsstring = "int list"

definition asc :: "string \<Rightarrow> jsstring" where
  "asc s = map of_char s"

text \<open>The characters of \<open>\s\<close> and of \<open>String.prototype.trim\<close> (white space and line terminators).\<close>

definition isWhiteSpace :: "int \<Rightarrow> bool" where
  "isWhiteSpace c \<longleftrightarrow>
     c = 9 \<or> c = 10 \<or> c = 11 \<or> c = 12 \<or> c = 13 \<or> c = 32 \<or> c = 160 \<or> c = 5760 \<or>
     (8192 \<le> c \<and> c \<le> 8202) \<or> c = 8232 \<or> c = 8233 \<or> c = 8239 \<or> c = 8287 \<or>
     c = 12288 \<or> c = 65279"

definition isDigit :: "int \<Rightarrow> bool" where
  "isDigit c \<longleftrightarrow> 48 \<le> c \<and> c \<le> 57"

definition trim :: "jsstring \<Rightarrow> jsstring" where
  "trim s = rev (dropWhile isWhiteSpace (rev (dropWhile isWhiteSpace s)))"

definition toLowerCase :: "jsstring \<Rightarrow> jsstring" where
  "toLowerCase s = map (\<lambda>c. if 65 \<le> c \<and> c \<le> 90 then c + 32 else c) s"

fun startsWith :: "jsstring \<Rightarrow> jsstring \<Rightarrow> bool" where
  "startsWith s [] = True"
| "startsWith [] (x # xs) = False"
| "startsWith (c # s) (x # xs) = (c = x \<and> startsWith s xs)"

text \<open>\<open>s.includes(x)\<close>: \<open>x\<close> occurs in \<open>s\<close> as a contiguous run of code units.\<close>

fun str_includes :: "jsstring \<Rightarrow> jsstring \<Rightarrow> bool" where
  "str_includes [] x = (x = [])"
| "str_includes (c # s) x = (startsWith (c # s) x \<or> str_includes s x)"

definition endsWith :: "jsstring \<Rightarrow> jsstring \<Rightarrow> bool" where
  "endsWith s x = startsWith (rev s) (rev x)"



section \<open>Header and value normalisers\<close>

text \<open>\<open>stripBOM\<close>: the pattern removes one leading byte-order mark U+FEFF.\<close>

definition stripBOM :: "jsstring \<Rightarrow> jsstring" where
  "stripBOM s = (case s of [] \<Rightarrow> [] | c # r \<Rightarrow> if c = 65279 then r else s)"

text \<open>Brackets \<open>( ) [ ]\<close> and their full-width forms U+FF08, U+FF09, U+3010, U+3011.\<close>

definition isBracket :: "int \<Rightarrow> bool" where
  "isBracket c \<longleftrightarrow> c = 40 \<or> c = 41 \<or> c = 65288 \<or> c = 65289 \<or> c = 91 \<or> c = 93 \<or>
     c = 12304 \<or> c = 12305"

text \<open>The dash class of \<open>norm\<close>: U+2010, U+2011, U+2013, U+2014, U+2212.\<close>

definition isDashNorm :: "int \<Rightarrow> bool" where
  "isDashNorm c \<longleftrightarrow> c = 8208 \<or> c = 8209 \<or> c = 8211 \<or> c = 8212 \<or> c = 8722"

text \<open>The dash class of \<open>normHeaderKey\<close>: U+2010, U+2011, U+2013, U+2014, U+2015, U+30FC.\<close>

definition isDashHeader :: "int \<Rightarrow> bool" where
  "isDashHeader c \<longleftrightarrow> c = 8208 \<or> c = 8209 \<or> c = 8211 \<or> c = 8212 \<or> c = 8213 \<or> c = 12540"

text \<open>Middle dots U+30FB and U+FF65.\<close>

definition isMiddleDot :: "int \<Rightarrow> bool" where
  "isMiddleDot c \<longleftrightarrow> c = 12539 \<or> c = 65381"

definition norm :: "jsstring \<Rightarrow> jsstring" where
  "norm s = toLowerCase
     (map (\<lambda>c. if isDashNorm c then 45 else c)
        (filter (\<lambda>c. \<not> (isWhiteSpace c \<or> c = 12288)) (trim s)))"

definition normKey :: "jsstring \<Rightarrow> jsstring" where
  "normKey s = filter (\<lambda>c. \<not> isBracket c) (filter (\<lambda>c. \<not> isMiddleDot c) (norm s))"

definition normHeaderKey :: "jsstring \<Rightarrow> jsstring" where
  "normHeaderKey k = toLowerCase
     (map (\<lambda>c. if isDashHeader c then 45 else c)
        (filter (\<lambda>c. \<not> isBracket c)
           (filter (\<lambda>c. \<not> (c = 12288 \<or> isWhiteSpace c)) (stripBOM k))))"

text \<open>\<open>has\<close>, the closure of \<open>canonicalKey\<close>: some synonym occurs in the normalised label.\<close>

definition has :: "jsstring \<Rightarrow> jsstring list \<Rightarrow> bool" where
  "has nk arr = list_ex (\<lambda>x. str_includes nk (normHeaderKey x)) arr"

text \<open>The synonym tables, in the order of the source; Japanese entries as code units.\<close>

definition syn_from :: "jsstring list" where
  "syn_from = [[20986, 30330, 22320], [30330, 22320], [20986, 30330], asc ''from'',
     asc ''origin'', [20986, 30330, 22580, 25152], [30330, 39365], [20055, 36554, 22320]]"

definition syn_to :: "jsstring list" where
  "syn_to = [[21040, 30528, 22320], [30528, 22320], [21040, 30528], asc ''to'',
     asc ''destination'', [21040, 30528, 22580, 25152], [30528, 39365], [38477, 36554, 22320]]"

definition syn_fare :: "jsstring list" where
  "syn_fare = [[36939, 36035], [37329, 38989], [26009, 37329], asc ''fare'', asc ''price'',
     [36939, 36035, 38989]]"

definition syn_priceType :: "jsstring list" where
  "syn_priceType = [[20385, 26684, 12479, 12452, 12503],
     [20385, 26684, 65408, 65394, 65420, 65439], [12471, 12540, 12474, 12531],
     asc ''season'', asc ''type'', [21306, 20998]]"

definition syn_wholeFrom :: "jsstring list" where
  "syn_wholeFrom = [[25645, 20055, 26399, 38291, 38283, 22987], [25645, 20055, 38283, 22987],
     asc ''boardfrom'', asc ''validfrom'', [25645, 20055, 26399, 38291] @ asc ''from'']"

definition syn_wholeTo :: "jsstring list" where
  "syn_wholeTo = [[25645, 20055, 26399, 38291, 32066, 20102], [25645, 20055, 32066, 20102],
     asc ''boardto'', asc ''validto'', [25645, 20055, 26399, 38291] @ asc ''to'']"

definition syn_validFrom :: "jsstring list" where
  "syn_validFrom = [[20385, 26684, 36969, 29992, 26399, 38291, 38283, 22987],
     [36969, 29992, 38283, 22987], asc ''periodfrom'', asc ''farefrom'',
     [20385, 26684, 36969, 29992, 38283, 22987]]"

definition syn_validTo :: "jsstring list" where
  "syn_validTo = [[20385, 26684, 36969, 29992, 26399, 38291, 32066, 20102],
     [36969, 29992, 32066, 20102], asc ''periodto'', asc ''fareto'',
     [20385, 26684, 36969, 29992, 32066, 20102]]"

definition syn_validRange :: "jsstring list" where
  "syn_validRange = [[20385, 26684, 36969, 29992, 26399, 38291], [36969, 29992, 26399, 38291],
     asc ''validrange'', asc ''period'', asc ''range'']"

definition syn_alias :: "jsstring list" where
  "syn_alias = [asc ''alias'', [21029, 21517], [20837, 21147], [20505, 35036],
     [34920, 35352, 12422, 12428], [34920, 35352, 25594, 12428], asc ''synonym'']"

definition syn_canonical :: "jsstring list" where
  "syn_canonical = [asc ''canonical'', [27491, 35215], [27491, 35215, 21517],
     [32113, 19968, 21517], [27491, 24335, 21517, 31216]]"

definition syn_rule :: "jsstring list" where
  "syn_rule = [[26681, 25312], [20633, 32771], asc ''rule'', [27880, 35352], [21442, 29031]]"

definition canonicalKey :: "jsstring \<Rightarrow> jsstring" where
  "canonicalKey k =
     (let nk = normHeaderKey k in
      if has nk syn_from then asc ''from''
      else if has nk syn_to then asc ''to''
      else if has nk syn_fare then asc ''fare''
      else if has nk syn_priceType then asc ''priceType''
      else if has nk syn_wholeFrom then asc ''wholeFrom''
      else if has nk syn_wholeTo then asc ''wholeTo''
      else if has nk syn_validFrom then asc ''validFrom''
      else if has nk syn_validTo then asc ''validTo''
      else if has nk syn_validRange then asc ''validRange''
      else if has nk syn_alias then asc ''alias''
      else if has nk syn_canonical then asc ''canonical''
      else if has nk syn_rule then asc ''rule''
      else nk)"

section \<open>Objects and maps\<close>


definition digitsVal :: "jsstring \<Rightarrow> int" where
  "digitsVal k = foldl (\<lambda>a c. 10 * a + (c - 48)) 0 k"








text \<open>A \<open>Map\<close> keeps insertion order; \<open>set\<close> on a present key replaces the value in place.\<close>

definition mapSet :: "(jsstring \<times> 'v) list \<Rightarrow> jsstring \<Rightarrow> 'v \<Rightarrow> (jsstring \<times> 'v) list" where
  "mapSet m k v = (if k \<in> fst ` set m then map (\<lambda>(k', v'). if k' = k then (k', v) else (k', v')) m
                   else m @ [(k, v)])"

definition mapGet :: "(jsstring \<times> 'v) list \<Rightarrow> jsstring \<Rightarrow> 'v option" where
  "mapGet m k = map_of m k"

definition mapHas :: "(jsstring \<times> 'v) list \<Rightarrow> jsstring \<Rightarrow> bool" where
  "mapHas m k \<longleftrightarrow> k \<in> fst ` set m"


section \<open>Regular expressions\<close>

text \<open>
  The patterns of the parsers are sequences of character-class repetitions with capture
  groups and an end anchor. \<open>rx_match\<close> matches such a sequence at the start of a string
  the way a backtracking matcher does: each repetition is greedy and gives characters
  back one at a time. It returns the captured groups in order.
\<close>

datatype rx = Rep "int \<Rightarrow> bool" nat "nat option" | GOpen | GClose | AtEnd

function rx_match :: "rx list \<Rightarrow> jsstring \<Rightarrow> jsstring list \<Rightarrow> jsstring option \<Rightarrow> jsstring list option"
  and rx_try :: "nat \<Rightarrow> nat \<Rightarrow> rx list \<Rightarrow> jsstring \<Rightarrow> jsstring list \<Rightarrow> jsstring option \<Rightarrow> jsstring list option"
where
  "rx_match [] s caps cur = Some (rev caps)"
| "rx_match (GOpen # rs) s caps cur = rx_match rs s caps (Some [])"
| "rx_match (GClose # rs) s caps cur =
     rx_match rs s ((case cur of Some g \<Rightarrow> g | None \<Rightarrow> []) # caps) None"
| "rx_match (AtEnd # rs) s caps cur = (if s = [] then rx_match rs s caps cur else None)"
| "rx_match (Rep c mn mx # rs) s caps cur =
     (let avail = length (takeWhile c s);
          k = (case mx of None \<Rightarrow> avail | Some m \<Rightarrow> min m avail)
      in if k < mn then None else rx_try mn k rs s caps cur)"
| "rx_try mn n rs s caps cur =
     (case rx_match rs (drop n s) caps (map_option (\<lambda>g. g @ take n s) cur) of
        Some r \<Rightarrow> Some r
      | None \<Rightarrow> if n \<le> mn then None else rx_try mn (n - 1) rs s caps cur)"
  by pat_completeness auto
termination
  by (relation "measures [
        (\<lambda>x. case x of Inl (rs, _) \<Rightarrow> 2 * length rs | Inr (_, _, rs, _) \<Rightarrow> 2 * length rs + 1),
        (\<lambda>x. case x of Inl _ \<Rightarrow> 0 | Inr (_, n, _) \<Rightarrow> n)]") auto

text \<open>An anchored pattern \<open>/^...$/\<close>: the groups of the match, if the whole string matches.\<close>

definition rx_full :: "rx list \<Rightarrow> jsstring \<Rightarrow> jsstring list option" where
  "rx_full rs s = rx_match (rs @ [AtEnd]) s [] None"


section \<open>Numbers\<close>

text \<open>
  \<open>Number(m[i])\<close> of a captured run of decimal digits, and \<open>parseInt(s, 10)\<close>: leading
  white space, an optional sign, then the longest run of digits; None is \<open>NaN\<close>.
  Numbers are modelled by exact integers, as a double holds them below \<open>2^53\<close>; the
  rounding of longer runs of digits, and their overflow to \<open>Infinity\<close> beyond 308 digits,
  are left out.
\<close>

definition Number_digits :: "jsstring \<Rightarrow> int" where
  "Number_digits s = digitsVal s"






section \<open>Dates\<close>

text \<open>
  Every \<open>Date\<close> of the program is a local midnight, built from a year, a month and a day.
  A date is modelled by its local day number (day 0 is 1970-01-01), in a time zone with a
  fixed offset from UTC, so that \<open>getTime\<close> is the day number in milliseconds up to a
  constant. \<open>DayFromYear\<close>, \<open>MakeDay\<close> and the month table follow the language standard;
  the year, month and day of a day number are computed per 400-year era.
\<close>

type_synonym jsdate = int

definition msPerDay :: int where
  "msPerDay = 86400000"

definition getTime :: "jsdate \<Rightarrow> int" where
  "getTime d = d * msPerDay"

text \<open>\<open>new Date(ms)\<close> for a time value produced by \<open>getTime\<close>.\<close>

definition Date_of_time :: "int \<Rightarrow> jsdate" where
  "Date_of_time ms = ms div msPerDay"

definition isLeapYear :: "int \<Rightarrow> bool" where
  "isLeapYear y \<longleftrightarrow> y mod 4 = 0 \<and> (y mod 100 \<noteq> 0 \<or> y mod 400 = 0)"

definition DayFromYear :: "int \<Rightarrow> int" where
  "DayFromYear y = 365 * (y - 1970) + (y - 1969) div 4 - (y - 1901) div 100 + (y - 1601) div 400"

definition daysBeforeMonth :: "int \<Rightarrow> bool \<Rightarrow> int" where
  "daysBeforeMonth mn leap =
     [0, 31, 59, 90, 120, 151, 181, 212, 243, 273, 304, 334] ! nat mn +
     (if leap \<and> 2 \<le> mn then 1 else 0)"

text \<open>\<open>MakeDay(year, month, date)\<close> with a zero-based month that may lie outside 0..11.\<close>

definition MakeDay :: "int \<Rightarrow> int \<Rightarrow> int \<Rightarrow> jsdate" where
  "MakeDay year month date =
     (let ym = year + month div 12; mn = month mod 12
      in DayFromYear ym + daysBeforeMonth mn (isLeapYear ym) + date - 1)"

text \<open>\<open>new Date(y, m, d)\<close>: a year from 0 to 99 means 1900 + y.\<close>

definition newDate :: "int \<Rightarrow> int \<Rightarrow> int \<Rightarrow> jsdate" where
  "newDate y m d = MakeDay (if 0 \<le> y \<and> y \<le> 99 then 1900 + y else y) m d"

text \<open>Year, zero-based month and day of the month of a day number.\<close>

definition civil :: "jsdate \<Rightarrow> int \<times> int \<times> int" where
  "civil d =
     (let z = d + 719468;
          era = z div 146097;
          doe = z mod 146097;
          yoe = (doe - doe div 1460 + doe div 36524 - doe div 146096) div 365;
          doy = doe - (365 * yoe + yoe div 4 - yoe div 100);
          mp = (5 * doy + 2) div 153;
          dd = doy - (153 * mp + 2) div 5 + 1;
          mm = (if mp < 10 then mp + 3 else mp - 9);
          yy = yoe + era * 400 + (if mm \<le> 2 then 1 else 0)
      in (yy, mm - 1, dd))"

definition getFullYear :: "jsdate \<Rightarrow> int" where
  "getFullYear d = fst (civil d)"

definition getMonth :: "jsdate \<Rightarrow> int" where
  "getMonth d = fst (snd (civil d))"

definition getDate :: "jsdate \<Rightarrow> int" where
  "getDate d = snd (snd (civil d))"

text \<open>\<open>shiftYear\<close>: a copy with \<open>setFullYear(getFullYear() + plus)\<close>, month and day kept.\<close>

definition shiftYear :: "jsdate \<Rightarrow> int \<Rightarrow> jsdate" where
  "shiftYear d n = MakeDay (getFullYear d + n) (getMonth d) (getDate d)"


section \<open>Parsing dates and periods\<close>

text \<open>
  What the build reads from its host: the collation comparator of
  \<open>a.localeCompare(b, "ja")\<close> and the calendar year of \<open>new Date()\<close>.
\<close>

record env =
  localeCompare_ja :: "jsstring \<Rightarrow> jsstring \<Rightarrow> int"
  currentYear :: int

definition isHyphen :: "int \<Rightarrow> bool" where
  "isHyphen c \<longleftrightarrow> c = 45"

definition isSlash :: "int \<Rightarrow> bool" where
  "isSlash c \<longleftrightarrow> c = 47"

definition isSlashOrHyphen :: "int \<Rightarrow> bool" where
  "isSlashOrHyphen c \<longleftrightarrow> c = 47 \<or> c = 45"

text \<open>\<open>/^(\d{4})-(\d{1,2})-(\d{1,2})$/\<close>\<close>

definition re_ymd_hyphen :: "rx list" where
  "re_ymd_hyphen = [GOpen, Rep isDigit 4 (Some 4), GClose, Rep isHyphen 1 (Some 1),
     GOpen, Rep isDigit 1 (Some 2), GClose, Rep isHyphen 1 (Some 1),
     GOpen, Rep isDigit 1 (Some 2), GClose]"

text \<open>\<open>/^(\d{4})\/(\d{1,2})\/(\d{1,2})$/\<close>\<close>

definition re_ymd_slash :: "rx list" where
  "re_ymd_slash = [GOpen, Rep isDigit 4 (Some 4), GClose, Rep isSlash 1 (Some 1),
     GOpen, Rep isDigit 1 (Some 2), GClose, Rep isSlash 1 (Some 1),
     GOpen, Rep isDigit 1 (Some 2), GClose]"

text \<open>\<open>/^(\d{4})\/(\d{1,2})$/\<close>, in the earlier version of the parser only.\<close>

definition re_ym_slash :: "rx list" where
  "re_ym_slash = [GOpen, Rep isDigit 4 (Some 4), GClose, Rep isSlash 1 (Some 1),
     GOpen, Rep isDigit 1 (Some 2), GClose]"

text \<open>\<open>/^(\d{1,2})[\/\-](\d{1,2})$/\<close>\<close>

definition re_md :: "rx list" where
  "re_md = [GOpen, Rep isDigit 1 (Some 2), GClose, Rep isSlashOrHyphen 1 (Some 1),
     GOpen, Rep isDigit 1 (Some 2), GClose]"

text \<open>\<open>parseDateLoose\<close> of \<open>app.js\<close>; the argument None is \<open>undefined\<close>, the result None is \<open>null\<close>.\<close>

definition parseDateLoose :: "env \<Rightarrow> jsstring option \<Rightarrow> jsdate option" where
  "parseDateLoose e s =
     (let t = trim (case s of None \<Rightarrow> [] | Some x \<Rightarrow> x) in
      if t = [] then None
      else case rx_full re_ymd_hyphen t of
        Some [y, m, d] \<Rightarrow> Some (newDate (Number_digits y) (Number_digits m - 1) (Number_digits d))
      | _ \<Rightarrow>
     (case rx_full re_ymd_slash t of
        Some [y, m, d] \<Rightarrow> Some (newDate (Number_digits y) (Number_digits m - 1) (Number_digits d))
      | _ \<Rightarrow>
     (case rx_full re_md t of
        Some [m, d] \<Rightarrow> Some (newDate (currentYear e) (Number_digits m - 1) (Number_digits d))
      | _ \<Rightarrow> None)))"

text \<open>\<open>parseDateLoose\<close> of the earlier single-file version, which also reads \<open>YYYY/MM\<close>.\<close>

definition parseDateLoose_part000 :: "env \<Rightarrow> jsstring option \<Rightarrow> jsdate option" where
  "parseDateLoose_part000 e s =
     (let t = trim (case s of None \<Rightarrow> [] | Some x \<Rightarrow> x) in
      if t = [] then None
      else case rx_full re_ymd_hyphen t of
        Some [y, m, d] \<Rightarrow> Some (newDate (Number_digits y) (Number_digits m - 1) (Number_digits d))
      | _ \<Rightarrow>
     (case rx_full re_ymd_slash t of
        Some [y, m, d] \<Rightarrow> Some (newDate (Number_digits y) (Number_digits m - 1) (Number_digits d))
      | _ \<Rightarrow>
     (case rx_full re_ym_slash t of
        Some [y, m] \<Rightarrow> Some (newDate (Number_digits y) (Number_digits m - 1) 1)
      | _ \<Rightarrow>
     (case rx_full re_md t of
        Some [m, d] \<Rightarrow> Some (newDate (currentYear e) (Number_digits m - 1) (Number_digits d))
      | _ \<Rightarrow> None))))"






section \<open>Year alignment\<close>

text \<open>
  \<open>alignToWholeRange\<close>: None for an argument is a value that is not a \<open>Date\<close>, None for
  the result is \<open>null\<close>. Dates compare by their time values.
\<close>

definition alignToWholeRange ::
  "jsdate option \<Rightarrow> jsdate option \<Rightarrow> jsdate option \<Rightarrow> jsdate option \<Rightarrow> (jsdate \<times> jsdate) option" where
  "alignToWholeRange pFrom pTo wholeFrom wholeTo =
     (case (pFrom, pTo) of
        (Some from0, Some to0) \<Rightarrow>
          (case (wholeFrom, wholeTo) of
             (Some wFrom, Some wTo) \<Rightarrow>
               (let crosses = (getFullYear wTo > getFullYear wFrom);
                    startY = getFullYear wFrom;
                    startM = getMonth wFrom;
                    from1 = (if crosses \<and> getFullYear from0 = startY \<and> getMonth from0 < startM
                             then shiftYear from0 1 else from0);
                    to1 = (if crosses \<and> getFullYear to0 = startY \<and> getMonth to0 < startM
                           then shiftYear to0 1 else to0);
                    from2 = (if crosses \<and> getTime to1 < getTime wFrom then shiftYear from1 1 else from1);
                    to2 = (if crosses \<and> getTime to1 < getTime wFrom then shiftYear to1 1 else to1);
                    vf = Date_of_time (max (getTime from2) (getTime wFrom));
                    vt = Date_of_time (min (getTime to2) (getTime wTo))
                in if getTime vf > getTime vt then None else Some (vf, vt))
           | _ \<Rightarrow> Some (from0, to0))
      | _ \<Rightarrow> None)"

section \<open>Fare records and the database\<close>

text \<open>
  A fare row as \<open>buildDBFromRows\<close> pushes it. \<open>rFrom\<close> and \<open>rTo\<close> are the fields \<open>from\<close>
  and \<open>to\<close>. The database holds the four tables the search reads; \<open>routeMap\<close> and
  \<open>aliasToCanon\<close> are \<open>Map\<close>s.
\<close>

record fareRow =
  rFrom :: jsstring
  rTo :: jsstring
  priceType :: jsstring
  fare :: int
  validFrom :: jsdate
  validTo :: jsdate
  source :: jsstring

record database =
  faresRows :: "fareRow list"
  routeMap :: "(jsstring \<times> fareRow list) list"
  places :: "jsstring list"
  aliasToCanon :: "(jsstring \<times> jsstring) list"

text \<open>
  \<open>Array.prototype.sort\<close> with a comparator is stable; for a comparator that is a
  consistent ordering every stable sort gives the same array, here by insertion.
\<close>

fun insert_cmp :: "('a \<Rightarrow> 'a \<Rightarrow> int) \<Rightarrow> 'a \<Rightarrow> 'a list \<Rightarrow> 'a list" where
  "insert_cmp cmp x [] = [x]"
| "insert_cmp cmp x (y # ys) = (if cmp x y \<le> 0 then x # y # ys else y # insert_cmp cmp x ys)"

definition js_sort :: "('a \<Rightarrow> 'a \<Rightarrow> int) \<Rightarrow> 'a list \<Rightarrow> 'a list" where
  "js_sort cmp xs = foldr (insert_cmp cmp) xs []"

section \<open>Alias handling\<close>

text \<open>The suffixes U+90FD, U+9053, U+5E9C, U+770C and the suffix U+7A7A U+6E2F.\<close>

definition stripPrefectureSuffix :: "jsstring \<Rightarrow> jsstring" where
  "stripPrefectureSuffix p =
     (if p \<noteq> [] \<and> last p \<in> {37117, 36947, 24220, 30476} then butlast p else p)"

definition stripAirportSuffix :: "jsstring \<Rightarrow> jsstring" where
  "stripAirportSuffix p =
     (if endsWith p [31354, 28207] then take (length p - 2) p else p)"

text \<open>The fixed pairs: U+7FBD U+7530, U+6210 U+7530 to U+6771 U+4EAC; U+90A3 U+8987 to U+6C96 U+7E04.\<close>

definition common :: "(jsstring \<times> jsstring) list" where
  "common = [([32701, 30000], [26481, 20140]), ([25104, 30000], [26481, 20140]),
     ([37027, 35207], [27798, 32260])]"

definition aliasVariants :: "jsstring \<Rightarrow> jsstring list" where
  "aliasVariants p = filter (\<lambda>v. v \<noteq> [] \<and> v \<noteq> p) [stripPrefectureSuffix p, stripAirportSuffix p]"

definition buildAliasDefaultsFromPlaces :: "jsstring list \<Rightarrow> (jsstring \<times> jsstring) list" where
  "buildAliasDefaultsFromPlaces ps =
     (let m1 = foldl (\<lambda>m p. mapSet m (normKey p) p) [] ps;
          m2 = foldl (\<lambda>m p.
                 foldl (\<lambda>m v. let k = normKey v in if \<not> mapHas m k then mapSet m k p else m)
                   m (aliasVariants p)) m1 ps;
          m3 = foldl (\<lambda>m (alias, canon).
                 if canon \<in> set ps \<and> \<not> mapHas m (normKey alias) then mapSet m (normKey alias) canon
                 else m) m2 common
      in m3)"

definition resolvePlace :: "database \<Rightarrow> jsstring \<Rightarrow> jsstring" where
  "resolvePlace db name =
     (let k = normKey name in
      if k = [] then []
      else case mapGet (aliasToCanon db) k of
             Some c \<Rightarrow> if c \<noteq> [] then c else trim name
           | None \<Rightarrow> trim name)"

section \<open>Core search\<close>

definition inRange :: "jsdate \<Rightarrow> jsdate \<Rightarrow> jsdate \<Rightarrow> bool" where
  "inRange d a b \<longleftrightarrow> (let x = getTime d in x \<ge> getTime a \<and> x \<le> getTime b)"

text \<open>The price tier U+30D4 U+30FC U+30AF (peak).\<close>

definition peak :: jsstring where
  "peak = [12500, 12540, 12463]"

text \<open>The comparator of \<open>pickBest\<close>.\<close>

definition bestCmp :: "fareRow \<Rightarrow> fareRow \<Rightarrow> int" where
  "bestCmp a b =
     (let lenA = getTime (validTo a) - getTime (validFrom a);
          lenB = getTime (validTo b) - getTime (validFrom b)
      in if lenA \<noteq> lenB then lenA - lenB
         else let peakA = (if priceType a = peak then 0 else 1);
                  peakB = (if priceType b = peak then 0 else 1)
              in if peakA \<noteq> peakB then peakA - peakB else fare a - fare b)"

definition pickBest :: "fareRow list \<Rightarrow> jsdate \<Rightarrow> fareRow option" where
  "pickBest rows date =
     (let cands = filter (\<lambda>r. inRange date (validFrom r) (validTo r)) rows in
      case js_sort bestCmp cands of [] \<Rightarrow> None | c # _ \<Rightarrow> Some c)"

text \<open>The result of \<open>findFare\<close>; \<open>usedReverse\<close> is absent (None) on a miss.\<close>

record matchResult =
  hit :: bool
  row :: "fareRow option"
  mFrom :: jsstring
  mTo :: jsstring
  tried :: "jsstring list"
  hasAnyRoute :: bool
  usedReverse :: "bool option"

text \<open>The direction label: the two names around U+2192.\<close>

definition arrow :: "jsstring \<Rightarrow> jsstring \<Rightarrow> jsstring" where
  "arrow a b = a @ [8594] @ b"

definition routeKey :: "jsstring \<Rightarrow> jsstring \<Rightarrow> jsstring" where
  "routeKey a b = normKey a @ asc ''||'' @ normKey b"

text \<open>\<open>DB.routeMap.get(key) || []\<close>.\<close>

definition routeList :: "database \<Rightarrow> jsstring \<Rightarrow> fareRow list" where
  "routeList db key = (case mapGet (routeMap db) key of Some l \<Rightarrow> l | None \<Rightarrow> [])"

definition findFare :: "database \<Rightarrow> jsdate \<Rightarrow> jsstring \<Rightarrow> jsstring \<Rightarrow> matchResult" where
  "findFare db date from0 to0 =
     (let f = resolvePlace db from0;
          t = resolvePlace db to0;
          keyFT = routeKey f t;
          keyTF = routeKey t f;
          listFT = routeList db keyFT;
          listTF = routeList db keyTF;
          anyRoute = (length listFT > 0 \<or> length listTF > 0)
      in case pickBest listFT date of
           Some best \<Rightarrow> \<lparr>hit = True, row = Some best, mFrom = f, mTo = t, tried = [arrow f t],
                          hasAnyRoute = anyRoute, usedReverse = Some False\<rparr>
         | None \<Rightarrow>
          (case pickBest listTF date of
             Some best \<Rightarrow> \<lparr>hit = True, row = Some best, mFrom = f, mTo = t,
                            tried = [arrow f t, arrow t f], hasAnyRoute = anyRoute,
                            usedReverse = Some True\<rparr>
           | None \<Rightarrow> \<lparr>hit = False, row = None, mFrom = f, mTo = t,
                        tried = [arrow f t, arrow t f], hasAnyRoute = anyRoute,
                        usedReverse = None\<rparr>))"

section \<open>Building the database\<close>






text \<open>The default price tier U+901A U+5E38, and the wave dash U+301C of the raw labels.\<close>

definition defaultPriceType :: jsstring where
  "defaultPriceType = [36890, 24120]"









section \<open>Reading the table text\<close>













section \<open>Example inputs\<close>

text \<open>
  A database given directly, in the form \<open>buildDBFromRows\<close> stores it: three fares Tokyo
  to Okinawa (two for June 2025, the second one at the peak tier, and one for the whole
  year), and one fare Naha to Osaka for June 2025.
\<close>

definition ex_june :: fareRow where
  "ex_june = \<lparr>rFrom = asc ''Tokyo'', rTo = asc ''Okinawa'', priceType = defaultPriceType,
     fare = 12000, validFrom = newDate 2025 5 1, validTo = newDate 2025 5 30,
     source = asc ''transport.csv''\<rparr>"

definition ex_june_peak :: fareRow where
  "ex_june_peak = \<lparr>rFrom = asc ''Tokyo'', rTo = asc ''Okinawa'', priceType = peak,
     fare = 15000, validFrom = newDate 2025 5 1, validTo = newDate 2025 5 30,
     source = asc ''transport.csv''\<rparr>"

definition ex_year :: fareRow where
  "ex_year = \<lparr>rFrom = asc ''Tokyo'', rTo = asc ''Okinawa'', priceType = asc ''Base'',
     fare = 9000, validFrom = newDate 2025 0 1, validTo = newDate 2025 11 31,
     source = asc ''transport.csv''\<rparr>"

definition ex_naha :: fareRow where
  "ex_naha = \<lparr>rFrom = asc ''Naha'', rTo = asc ''Osaka'', priceType = defaultPriceType,
     fare = 8000, validFrom = newDate 2025 5 1, validTo = newDate 2025 5 30,
     source = asc ''transport.csv''\<rparr>"

definition ex_db :: database where
  "ex_db = \<lparr>faresRows = [ex_june, ex_june_peak, ex_year, ex_naha],
     routeMap = [(asc ''tokyo||okinawa'', [ex_year, ex_june, ex_june_peak]),
                 (asc ''naha||osaka'', [ex_naha])],
     places = [asc ''Tokyo'', asc ''Okinawa'', asc ''Naha'', asc ''Osaka''],
     aliasToCanon = [(asc ''tokyo'', asc ''Tokyo''), (asc ''okinawa'', asc ''Okinawa''),
                     (asc ''naha'', asc ''Naha''), (asc ''osaka'', asc ''Osaka'')]\<rparr>"

text \<open>
  Raw rows for the builder. The host collation is any comparator; here the constant one,
  which leaves the places in insertion order. The first table has one fare, Tokyo to
  Okinawa for June 2025, and one alias row that renames Tokyo.
\<close>

definition ex_env :: env where
  "ex_env = \<lparr>localeCompare_ja = (\<lambda>a b. 0), currentYear = 2026\<rparr>"














section \<open>The example tables, evaluated\<close>







section \<open>Properties of the header normaliser\<close>

lemma startsWith_iff: "startsWith s x \<longleftrightarrow> (\<exists>b. s = x @ b)"
  by (induction s x rule: startsWith.induct) auto

lemma str_includes_iff: "str_includes s x \<longleftrightarrow> (\<exists>a b. s = a @ x @ b)"
proof (induction s)
  case Nil
  then show ?case by auto
next
  case (Cons c s)
  show ?case
  proof
    assume "str_includes (c # s) x"
    then consider "startsWith (c # s) x" | "str_includes s x" by auto
    then show "\<exists>a b. c # s = a @ x @ b"
    proof cases
      case 1
      then obtain b where "c # s = x @ b" using startsWith_iff by blast
      then have "c # s = [] @ x @ b" by simp
      then show ?thesis by blast
    next
      case 2
      then obtain a b where "s = a @ x @ b" using Cons.IH by blast
      then have "c # s = (c # a) @ x @ b" by simp
      then show ?thesis by blast
    qed
  next
    assume "\<exists>a b. c # s = a @ x @ b"
    then obtain a b where ab: "c # s = a @ x @ b" by blast
    show "str_includes (c # s) x"
    proof (cases a)
      case Nil
      then have "startsWith (c # s) x" using ab startsWith_iff by auto
      then show ?thesis by simp
    next
      case (Cons a0 a')
      then have "s = a' @ x @ b" using ab by simp
      then have "str_includes s x" using Cons.IH by blast
      then show ?thesis by simp
    qed
  qed
qed

lemma str_includes_trans:
  assumes "str_includes s x" and "str_includes x y"
  shows "str_includes s y"
proof -
  obtain a b where 1: "s = a @ x @ b" using assms(1) str_includes_iff by blast
  obtain c d where 2: "x = c @ y @ d" using assms(2) str_includes_iff by blast
  have "s = (a @ c) @ y @ (d @ b)" using 1 2 by simp
  then show ?thesis using str_includes_iff by blast
qed

lemma nhk_from: "normHeaderKey (asc ''from'') = asc ''from''" by code_simp

lemma nhk_to: "normHeaderKey (asc ''to'') = asc ''to''" by code_simp

lemma inc_validfrom: "str_includes (asc ''validfrom'') (asc ''from'')" by code_simp

lemma inc_validto: "str_includes (asc ''validto'') (asc ''to'')" by code_simp

lemma has_from: "str_includes nk (asc ''from'') \<Longrightarrow> has nk syn_from"
  by (simp add: has_def syn_from_def nhk_from)

lemma has_to: "str_includes nk (asc ''to'') \<Longrightarrow> has nk syn_to"
  by (simp add: has_def syn_to_def nhk_to)

text \<open>
  Claim C9. The claim: a header label whose normalised form contains \<open>validfrom\<close> is
  canonicalised to \<open>wholeFrom\<close>, and one that contains \<open>validto\<close> to \<open>wholeTo\<close>.
  The code does not do so. The origin synonyms, which include \<open>from\<close>, are tested first,
  and every label that contains \<open>validfrom\<close> contains \<open>from\<close>: \<open>canonicalKey\<close> returns
  \<open>from\<close> for it. A label that contains \<open>validto\<close> contains \<open>to\<close>, and \<open>canonicalKey\<close>
  returns \<open>from\<close> or \<open>to\<close> for it; the entries \<open>validfrom\<close> and \<open>validto\<close> of the
  boarding-window tables are never reached.
\<close>

theorem canonicalKey_validfrom_is_from:
  "(str_includes (normHeaderKey k) (asc ''validfrom'') \<longrightarrow> canonicalKey k = asc ''from'') \<and>
   (str_includes (normHeaderKey k) (asc ''validto'') \<longrightarrow>
      canonicalKey k = asc ''from'' \<or> canonicalKey k = asc ''to'')"
proof (intro conjI impI)
  assume "str_includes (normHeaderKey k) (asc ''validfrom'')"
  then have "has (normHeaderKey k) syn_from"
    using str_includes_trans inc_validfrom has_from by blast
  then show "canonicalKey k = asc ''from''" by (simp add: canonicalKey_def)
next
  assume "str_includes (normHeaderKey k) (asc ''validto'')"
  then have "has (normHeaderKey k) syn_to"
    using str_includes_trans inc_validto has_to by blast
  then show "canonicalKey k = asc ''from'' \<or> canonicalKey k = asc ''to''"
    by (simp add: canonicalKey_def Let_def)
qed

theorem canonicalKey_validfrom_is_from_witness:
  "str_includes (normHeaderKey (asc ''validFrom'')) (asc ''validfrom'') \<and>
   canonicalKey (asc ''validFrom'') = asc ''from'' \<and>
   canonicalKey (asc ''validFrom'') \<noteq> asc ''wholeFrom'' \<and>
   str_includes (normHeaderKey (asc ''validTo'')) (asc ''validto'') \<and>
   canonicalKey (asc ''validTo'') = asc ''to'' \<and>
   canonicalKey (asc ''validTo'') \<noteq> asc ''wholeTo''"
proof -
  have a: "str_includes (normHeaderKey (asc ''validFrom'')) (asc ''validfrom'')" by code_simp
  have b: "str_includes (normHeaderKey (asc ''validTo'')) (asc ''validto'')" by code_simp
  have c: "canonicalKey (asc ''validFrom'') = asc ''from''"
    using canonicalKey_validfrom_is_from [of "asc ''validFrom''"] a by blast
  have d: "canonicalKey (asc ''validTo'') = asc ''to''" by code_simp
  have e: "asc ''from'' \<noteq> asc ''wholeFrom''" by code_simp
  have f: "asc ''to'' \<noteq> asc ''wholeTo''" by code_simp
  show ?thesis using a b c d e f by simp
qed

section \<open>Properties of the search\<close>

lemma set_insert_cmp: "set (insert_cmp cmp x ys) = insert x (set ys)"
  by (induction ys) auto

lemma set_js_sort: "set (js_sort cmp xs) = set xs"
  by (induction xs) (auto simp: js_sort_def set_insert_cmp)

lemma js_sort_Cons: "js_sort cmp (x # xs) = insert_cmp cmp x (js_sort cmp xs)"
  by (simp add: js_sort_def)

lemma js_sort_Nil_iff: "js_sort cmp xs = [] \<longleftrightarrow> xs = []"
  using set_js_sort [of cmp xs] by (metis set_empty)

text \<open>The first element of the sorted array is least, for a comparator that is a total preorder.\<close>

lemma js_sort_head_least:
  assumes refl: "\<And>a. cmp a a \<le> 0"
    and total: "\<And>a b. \<not> cmp a b \<le> 0 \<Longrightarrow> cmp b a \<le> 0"
    and trans: "\<And>a b c. cmp a b \<le> 0 \<Longrightarrow> cmp b c \<le> 0 \<Longrightarrow> cmp a c \<le> 0"
  shows "js_sort cmp xs = h # t \<Longrightarrow> c \<in> set xs \<Longrightarrow> cmp h c \<le> 0"
proof (induction xs arbitrary: h t c)
  case Nil
  then show ?case by simp
next
  case (Cons x xs)
  show ?case
  proof (cases "js_sort cmp xs")
    case Nil
    then have "xs = []" by (simp only: js_sort_Nil_iff)
    with Cons.prems show ?thesis using refl by (simp add: js_sort_def)
  next
    case (Cons h' t')
    have least': "\<And>d. d \<in> set xs \<Longrightarrow> cmp h' d \<le> 0"
      using Cons.IH [OF Cons] by blast
    show ?thesis
    proof (cases "cmp x h' \<le> 0")
      case True
      then have hx: "h = x" using Cons.prems(1) Cons by (simp add: js_sort_Cons)
      show ?thesis
      proof (cases "c = x")
        case True
        then show ?thesis using hx refl by simp
      next
        case False
        then have "c \<in> set xs" using Cons.prems(2) by simp
        then have "cmp h' c \<le> 0" using least' by blast
        then show ?thesis using hx True trans by blast
      qed
    next
      case False
      then have hh: "h = h'" using Cons.prems(1) Cons by (simp add: js_sort_Cons)
      show ?thesis
      proof (cases "c = x")
        case True
        then show ?thesis using hh False total by blast
      next
        case False
        then have "c \<in> set xs" using Cons.prems(2) by simp
        then show ?thesis using hh least' by blast
      qed
    qed
  qed
qed

lemma bestCmp_refl: "bestCmp a a \<le> 0"
  by (simp add: bestCmp_def)

lemma bestCmp_total: "\<not> bestCmp a b \<le> 0 \<Longrightarrow> bestCmp b a \<le> 0"
  by (auto simp: bestCmp_def Let_def split: if_splits)

lemma bestCmp_trans: "bestCmp a b \<le> 0 \<Longrightarrow> bestCmp b c \<le> 0 \<Longrightarrow> bestCmp a c \<le> 0"
  by (auto simp: bestCmp_def Let_def split: if_splits)

text \<open>The comparator, read as the three-level order of the search.\<close>

lemma bestCmp_le_iff:
  "bestCmp a b \<le> 0 \<longleftrightarrow>
     getTime (validTo a) - getTime (validFrom a) < getTime (validTo b) - getTime (validFrom b) \<or>
     (getTime (validTo a) - getTime (validFrom a) = getTime (validTo b) - getTime (validFrom b) \<and>
      ((priceType a = peak \<and> priceType b \<noteq> peak) \<or>
       ((priceType a = peak \<longleftrightarrow> priceType b = peak) \<and> fare a \<le> fare b)))"
  by (auto simp: bestCmp_def Let_def split: if_splits)

lemma js_sort_bestCmp_head:
  assumes "js_sort bestCmp xs = h # t" and "c \<in> set xs"
  shows "bestCmp h c \<le> 0"
proof (rule js_sort_head_least [where cmp = bestCmp and xs = xs and h = h and t = t])
  show "\<And>a. bestCmp a a \<le> 0" by (rule bestCmp_refl)
  show "\<And>a b. \<not> bestCmp a b \<le> 0 \<Longrightarrow> bestCmp b a \<le> 0" by (rule bestCmp_total)
  show "\<And>a b c. bestCmp a b \<le> 0 \<Longrightarrow> bestCmp b c \<le> 0 \<Longrightarrow> bestCmp a c \<le> 0"
    by (rule bestCmp_trans)
  show "js_sort bestCmp xs = h # t" by (rule assms)
  show "c \<in> set xs" by (rule assms)
qed

lemma pickBest_Some:
  assumes "pickBest rows d = Some r"
  shows "r \<in> set rows" and "inRange d (validFrom r) (validTo r)"
    and "\<And>c. c \<in> set rows \<Longrightarrow> inRange d (validFrom c) (validTo c) \<Longrightarrow> bestCmp r c \<le> 0"
proof -
  let ?cands = "filter (\<lambda>r. inRange d (validFrom r) (validTo r)) rows"
  obtain t where srt: "js_sort bestCmp ?cands = r # t"
    using assms by (auto simp: pickBest_def Let_def split: list.splits)
  have "r \<in> set (js_sort bestCmp ?cands)" using srt by simp
  then have rc: "r \<in> set ?cands" by (simp only: set_js_sort)
  show "r \<in> set rows" using rc by simp
  show "inRange d (validFrom r) (validTo r)" using rc by simp
  fix c assume "c \<in> set rows" "inRange d (validFrom c) (validTo c)"
  then have "c \<in> set ?cands" by simp
  then show "bestCmp r c \<le> 0"
    using js_sort_bestCmp_head [OF srt] by blast
qed

lemma pickBest_None_iff:
  "pickBest rows d = None \<longleftrightarrow> (\<forall>r \<in> set rows. \<not> inRange d (validFrom r) (validTo r))"
proof -
  let ?cands = "filter (\<lambda>r. inRange d (validFrom r) (validTo r)) rows"
  have "pickBest rows d = None \<longleftrightarrow> js_sort bestCmp ?cands = []"
    by (auto simp: pickBest_def Let_def split: list.splits)
  also have "\<dots> \<longleftrightarrow> ?cands = []" by (simp only: js_sort_Nil_iff)
  also have "\<dots> \<longleftrightarrow> (\<forall>r \<in> set rows. \<not> inRange d (validFrom r) (validTo r))"
    by (simp add: filter_empty_conv)
  finally show ?thesis .
qed

lemma findFare_hit_row:
  assumes "hit (findFare db d a b)"
  shows "\<exists>r l. row (findFare db d a b) = Some r \<and> pickBest l d = Some r \<and>
     (l = routeList db (routeKey (resolvePlace db a) (resolvePlace db b)) \<or>
      l = routeList db (routeKey (resolvePlace db b) (resolvePlace db a)))"
  using assms by (auto simp: findFare_def Let_def split: option.splits)

text \<open>
Claim C1. For every date and every list of fare rows, when \<open>pickBest\<close> returns a row,
  the row is one of the list, its validity window contains the date (both ends
  inclusive), and it is optimal among all rows of the list whose window contains the
  date: against each of them it has the shorter window, or an equal window and the peak
  tier where the other has not, or an equal window, the same standing as to the peak tier
  and a fare that is not higher. Whenever \<open>findFare\<close> reports a hit, it returns a row whose
  window contains the date.
\<close>

theorem pickBest_in_window_and_optimal:
  "(pickBest rows d = Some r \<longrightarrow>
      r \<in> set rows \<and>
      getTime (validFrom r) \<le> getTime d \<and> getTime d \<le> getTime (validTo r) \<and>
      (\<forall>c \<in> set rows. getTime (validFrom c) \<le> getTime d \<and> getTime d \<le> getTime (validTo c) \<longrightarrow>
         getTime (validTo r) - getTime (validFrom r) < getTime (validTo c) - getTime (validFrom c) \<or>
         (getTime (validTo r) - getTime (validFrom r) = getTime (validTo c) - getTime (validFrom c) \<and>
          ((priceType r = peak \<and> priceType c \<noteq> peak) \<or>
           ((priceType r = peak \<longleftrightarrow> priceType c = peak) \<and> fare r \<le> fare c))))) \<and>
   (hit (findFare db d a b) \<longrightarrow>
      (\<exists>r'. row (findFare db d a b) = Some r' \<and>
         getTime (validFrom r') \<le> getTime d \<and> getTime d \<le> getTime (validTo r')))"
proof (intro conjI impI)
  assume pb: "pickBest rows d = Some r"
  show "r \<in> set rows" using pickBest_Some(1) [OF pb] .
  have "inRange d (validFrom r) (validTo r)" using pickBest_Some(2) [OF pb] .
  then show "getTime (validFrom r) \<le> getTime d" and "getTime d \<le> getTime (validTo r)"
    by (simp_all add: inRange_def Let_def)
  show "\<forall>c \<in> set rows. getTime (validFrom c) \<le> getTime d \<and> getTime d \<le> getTime (validTo c) \<longrightarrow>
         getTime (validTo r) - getTime (validFrom r) < getTime (validTo c) - getTime (validFrom c) \<or>
         (getTime (validTo r) - getTime (validFrom r) = getTime (validTo c) - getTime (validFrom c) \<and>
          ((priceType r = peak \<and> priceType c \<noteq> peak) \<or>
           ((priceType r = peak \<longleftrightarrow> priceType c = peak) \<and> fare r \<le> fare c)))"
  proof (intro ballI impI)
    fix c assume c: "c \<in> set rows"
      and w: "getTime (validFrom c) \<le> getTime d \<and> getTime d \<le> getTime (validTo c)"
    have "inRange d (validFrom c) (validTo c)" using w by (simp add: inRange_def Let_def)
    then have "bestCmp r c \<le> 0" using pickBest_Some(3) [OF pb c] by blast
    then show "getTime (validTo r) - getTime (validFrom r) < getTime (validTo c) - getTime (validFrom c) \<or>
         (getTime (validTo r) - getTime (validFrom r) = getTime (validTo c) - getTime (validFrom c) \<and>
          ((priceType r = peak \<and> priceType c \<noteq> peak) \<or>
           ((priceType r = peak \<longleftrightarrow> priceType c = peak) \<and> fare r \<le> fare c)))"
      using bestCmp_le_iff by blast
  qed
next
  assume h: "hit (findFare db d a b)"
  then obtain r' l where r': "row (findFare db d a b) = Some r'" and pb: "pickBest l d = Some r'"
    using findFare_hit_row by blast
  have "inRange d (validFrom r') (validTo r')" using pickBest_Some(2) [OF pb] .
  then show "\<exists>r'. row (findFare db d a b) = Some r' \<and>
         getTime (validFrom r') \<le> getTime d \<and> getTime d \<le> getTime (validTo r')"
    using r' by (auto simp: inRange_def Let_def)
qed

theorem pickBest_in_window_and_optimal_witness:
  "pickBest [ex_year, ex_june, ex_june_peak] (newDate 2025 5 15) = Some ex_june_peak \<and>
   getTime (validFrom ex_june_peak) \<le> getTime (newDate 2025 5 15) \<and>
   getTime (newDate 2025 5 15) \<le> getTime (validTo ex_june_peak) \<and>
   priceType ex_june_peak = peak \<and> priceType ex_june \<noteq> peak \<and>
   getTime (validTo ex_june_peak) - getTime (validFrom ex_june_peak) <
     getTime (validTo ex_year) - getTime (validFrom ex_year) \<and>
   hit (findFare ex_db (newDate 2025 5 15) (asc ''Tokyo'') (asc ''Okinawa'')) \<and>
   row (findFare ex_db (newDate 2025 5 15) (asc ''Tokyo'') (asc ''Okinawa'')) = Some ex_june_peak"
proof -
  have pb: "pickBest [ex_year, ex_june, ex_june_peak] (newDate 2025 5 15) = Some ex_june_peak"
    by code_simp
  have ht: "hit (findFare ex_db (newDate 2025 5 15) (asc ''Tokyo'') (asc ''Okinawa''))"
    by code_simp
  have rw: "row (findFare ex_db (newDate 2025 5 15) (asc ''Tokyo'') (asc ''Okinawa'')) = Some ex_june_peak"
    by code_simp
  have p1: "priceType ex_june_peak = peak" by (simp add: ex_june_peak_def)
  have p2: "priceType ex_june \<noteq> peak" by code_simp
  have ln: "getTime (validTo ex_june_peak) - getTime (validFrom ex_june_peak) <
     getTime (validTo ex_year) - getTime (validFrom ex_year)" by code_simp
  from pickBest_in_window_and_optimal
    [of "[ex_year, ex_june, ex_june_peak]" "newDate 2025 5 15" ex_june_peak ex_db
        "asc ''Tokyo''" "asc ''Okinawa''"] pb
  have "getTime (validFrom ex_june_peak) \<le> getTime (newDate 2025 5 15) \<and>
        getTime (newDate 2025 5 15) \<le> getTime (validTo ex_june_peak)"
    by blast
  then show ?thesis using pb ht rw p1 p2 ln by blast
qed

text \<open>
Claim C2. With \<open>f\<close> and \<open>t\<close> the resolved places of a query: when the forward list holds
  a fare whose window contains the date, \<open>findFare\<close> returns the best of the forward list,
  not marked as reverse, with the forward direction alone in \<open>tried\<close>. When the forward
  list holds none and the reverse list holds one, it returns the best of the reverse
  list, marked \<open>usedReverse\<close>, with both directions in \<open>tried\<close>. When neither holds one,
  the result is a miss with no row. In every case \<open>hasAnyRoute\<close> is true exactly when one
  of the two lists is non-empty, whatever the date.
\<close>

theorem findFare_forward_then_reverse:
  "(let f = resolvePlace db a; t = resolvePlace db b;
        listFT = routeList db (routeKey f t); listTF = routeList db (routeKey t f);
        res = findFare db d a b
    in ((\<exists>r \<in> set listFT. inRange d (validFrom r) (validTo r)) \<longrightarrow>
          hit res \<and> row res = pickBest listFT d \<and> row res \<noteq> None \<and>
          usedReverse res = Some False \<and> tried res = [arrow f t]) \<and>
       ((\<forall>r \<in> set listFT. \<not> inRange d (validFrom r) (validTo r)) \<and>
        (\<exists>r \<in> set listTF. inRange d (validFrom r) (validTo r)) \<longrightarrow>
          hit res \<and> row res = pickBest listTF d \<and> row res \<noteq> None \<and>
          usedReverse res = Some True \<and> tried res = [arrow f t, arrow t f]) \<and>
       ((\<forall>r \<in> set listFT. \<not> inRange d (validFrom r) (validTo r)) \<and>
        (\<forall>r \<in> set listTF. \<not> inRange d (validFrom r) (validTo r)) \<longrightarrow>
          \<not> hit res \<and> row res = None \<and> tried res = [arrow f t, arrow t f]) \<and>
       (hasAnyRoute res \<longleftrightarrow> listFT \<noteq> [] \<or> listTF \<noteq> []) \<and>
       mFrom res = f \<and> mTo res = t)"
proof -
  let ?f = "resolvePlace db a" and ?t = "resolvePlace db b"
  let ?FT = "routeList db (routeKey ?f ?t)" and ?TF = "routeList db (routeKey ?t ?f)"
  have none_iff: "\<And>l. (pickBest l d = None) = (\<forall>r \<in> set l. \<not> inRange d (validFrom r) (validTo r))"
    by (rule pickBest_None_iff)
  show ?thesis
  proof (cases "pickBest ?FT d")
    case (Some best)
    then have "\<exists>r \<in> set ?FT. inRange d (validFrom r) (validTo r)"
      using none_iff [of ?FT] by auto
    then show ?thesis using Some by (auto simp: findFare_def Let_def)
  next
    case None
    then have noFT: "\<forall>r \<in> set ?FT. \<not> inRange d (validFrom r) (validTo r)"
      using none_iff [of ?FT] by simp
    show ?thesis
    proof (cases "pickBest ?TF d")
      case (Some best)
      then have "\<exists>r \<in> set ?TF. inRange d (validFrom r) (validTo r)"
        using none_iff [of ?TF] by auto
      then show ?thesis using None Some noFT by (auto simp: findFare_def Let_def)
    next
      case None2: None
      then have "\<forall>r \<in> set ?TF. \<not> inRange d (validFrom r) (validTo r)"
        using none_iff [of ?TF] by simp
      then show ?thesis using None None2 noFT by (auto simp: findFare_def Let_def)
    qed
  qed
qed

theorem findFare_forward_then_reverse_witness:
  "routeList ex_db (routeKey (asc ''Osaka'') (asc ''Naha'')) = [] \<and>
   routeList ex_db (routeKey (asc ''Naha'') (asc ''Osaka'')) = [ex_naha] \<and>
   inRange (newDate 2025 5 15) (validFrom ex_naha) (validTo ex_naha) \<and>
   hit (findFare ex_db (newDate 2025 5 15) (asc ''Osaka'') (asc ''Naha'')) \<and>
   row (findFare ex_db (newDate 2025 5 15) (asc ''Osaka'') (asc ''Naha'')) = Some ex_naha \<and>
   usedReverse (findFare ex_db (newDate 2025 5 15) (asc ''Osaka'') (asc ''Naha'')) = Some True \<and>
   tried (findFare ex_db (newDate 2025 5 15) (asc ''Osaka'') (asc ''Naha'')) =
     [arrow (asc ''Osaka'') (asc ''Naha''), arrow (asc ''Naha'') (asc ''Osaka'')] \<and>
   hasAnyRoute (findFare ex_db (newDate 2025 5 15) (asc ''Osaka'') (asc ''Naha'')) \<and>
   \<not> inRange (newDate 2025 6 1) (validFrom ex_naha) (validTo ex_naha) \<and>
   \<not> hit (findFare ex_db (newDate 2025 6 1) (asc ''Osaka'') (asc ''Naha'')) \<and>
   row (findFare ex_db (newDate 2025 6 1) (asc ''Osaka'') (asc ''Naha'')) = None \<and>
   hasAnyRoute (findFare ex_db (newDate 2025 6 1) (asc ''Osaka'') (asc ''Naha''))"
proof -
  have rp: "resolvePlace ex_db (asc ''Osaka'') = asc ''Osaka''"
    "resolvePlace ex_db (asc ''Naha'') = asc ''Naha''"
    by code_simp+
  have l1: "routeList ex_db (routeKey (asc ''Osaka'') (asc ''Naha'')) = []" by code_simp
  have l2: "routeList ex_db (routeKey (asc ''Naha'') (asc ''Osaka'')) = [ex_naha]" by code_simp
  have r1: "inRange (newDate 2025 5 15) (validFrom ex_naha) (validTo ex_naha)" by code_simp
  have r2: "\<not> inRange (newDate 2025 6 1) (validFrom ex_naha) (validTo ex_naha)" by code_simp
  have pb: "pickBest [ex_naha] (newDate 2025 5 15) = Some ex_naha" by code_simp
  have a: "hit (findFare ex_db (newDate 2025 5 15) (asc ''Osaka'') (asc ''Naha'')) \<and>
     row (findFare ex_db (newDate 2025 5 15) (asc ''Osaka'') (asc ''Naha'')) = Some ex_naha \<and>
     usedReverse (findFare ex_db (newDate 2025 5 15) (asc ''Osaka'') (asc ''Naha'')) = Some True \<and>
     tried (findFare ex_db (newDate 2025 5 15) (asc ''Osaka'') (asc ''Naha'')) =
       [arrow (asc ''Osaka'') (asc ''Naha''), arrow (asc ''Naha'') (asc ''Osaka'')] \<and>
     hasAnyRoute (findFare ex_db (newDate 2025 5 15) (asc ''Osaka'') (asc ''Naha''))"
    using findFare_forward_then_reverse [of ex_db "asc ''Osaka''" "asc ''Naha''" "newDate 2025 5 15"]
    by (simp add: Let_def rp l1 l2 r1 pb)
  have b: "\<not> hit (findFare ex_db (newDate 2025 6 1) (asc ''Osaka'') (asc ''Naha'')) \<and>
     row (findFare ex_db (newDate 2025 6 1) (asc ''Osaka'') (asc ''Naha'')) = None \<and>
     hasAnyRoute (findFare ex_db (newDate 2025 6 1) (asc ''Osaka'') (asc ''Naha''))"
    using findFare_forward_then_reverse [of ex_db "asc ''Osaka''" "asc ''Naha''" "newDate 2025 6 1"]
    by (simp add: Let_def rp l1 l2 r2)
  show ?thesis using a b l1 l2 r1 r2 by blast
qed

section \<open>Properties of the year alignment\<close>

text \<open>The calendar functions at some known dates, across leap days and year ends.\<close>

lemma civil_examples:
  "civil 0 = (1970, 0, 1) \<and> civil (newDate 2000 1 29) = (2000, 1, 29) \<and>
   civil (newDate 2000 2 1) = (2000, 2, 1) \<and> civil (newDate 1900 1 29) = (1900, 2, 1) \<and>
   civil (newDate 2025 11 31) = (2025, 11, 31) \<and> civil (newDate 2026 0 1) = (2026, 0, 1) \<and>
   civil (newDate 2025 12 1) = (2026, 0, 1) \<and> civil (newDate 2025 1 30) = (2025, 2, 2) \<and>
   civil (newDate 1969 11 31) = (1969, 11, 31) \<and> newDate 1969 11 31 = - 1 \<and>
   civil (newDate 99 0 1) = (1999, 0, 1)"
  by code_simp

lemma Date_of_time_getTime: "Date_of_time (getTime d) = d"
  by (simp add: Date_of_time_def getTime_def msPerDay_def)

lemma getTime_mono: "getTime a \<le> getTime b \<longleftrightarrow> a \<le> b"
  by (simp add: getTime_def msPerDay_def)

lemma getTime_less: "getTime a < getTime b \<longleftrightarrow> a < b"
  by (simp add: getTime_def msPerDay_def)

lemma getTime_max: "max (getTime a) (getTime b) = getTime (max a b)"
  by (simp add: max_def getTime_mono)

lemma getTime_min: "min (getTime a) (getTime b) = getTime (min a b)"
  by (simp add: min_def getTime_mono)

text \<open>
Claim C4. For a boarding window whose end year is later than its start year: an endpoint
  of the validity range that has the start year of the window and a month before its
  start month is shifted forward one year; if the end of the range is then still before
  the start of the window, both endpoints are shifted forward one more year; the result is
  clamped to the window, from the later of the two starts to the earlier of the two ends,
  and discarded when the clamped start is after the clamped end. The witness is the
  window 2025-10-26 to 2026-03-28 with the range 2025-01-05 to 2025-01-20, which becomes
  2026-01-05 to 2026-01-20.
\<close>

theorem alignToWholeRange_crossing:
  "getFullYear wTo > getFullYear wFrom \<longrightarrow>
   (let shifted = (\<lambda>x. if getFullYear x = getFullYear wFrom \<and> getMonth x < getMonth wFrom
                        then shiftYear x 1 else x);
        from1 = shifted from0;
        to1 = shifted to0;
        from2 = (if to1 < wFrom then shiftYear from1 1 else from1);
        to2 = (if to1 < wFrom then shiftYear to1 1 else to1)
    in alignToWholeRange (Some from0) (Some to0) (Some wFrom) (Some wTo) =
         (if max from2 wFrom > min to2 wTo then None
          else Some (max from2 wFrom, min to2 wTo)))"
  by (simp add: alignToWholeRange_def Let_def getTime_max getTime_min Date_of_time_getTime
      getTime_less)

theorem alignToWholeRange_crossing_witness:
  "getFullYear (newDate 2026 2 28) > getFullYear (newDate 2025 9 26) \<and>
   getFullYear (newDate 2025 0 5) = getFullYear (newDate 2025 9 26) \<and>
   getMonth (newDate 2025 0 5) < getMonth (newDate 2025 9 26) \<and>
   shiftYear (newDate 2025 0 5) 1 = newDate 2026 0 5 \<and>
   shiftYear (newDate 2025 0 20) 1 = newDate 2026 0 20 \<and>
   alignToWholeRange (Some (newDate 2025 0 5)) (Some (newDate 2025 0 20))
       (Some (newDate 2025 9 26)) (Some (newDate 2026 2 28)) =
     Some (newDate 2026 0 5, newDate 2026 0 20) \<and>
   alignToWholeRange (Some (newDate 2025 3 1)) (Some (newDate 2025 3 30))
       (Some (newDate 2025 9 26)) (Some (newDate 2026 2 28)) = None"
proof -
  have c: "getFullYear (newDate 2026 2 28) > getFullYear (newDate 2025 9 26)" by code_simp
  have y: "getFullYear (newDate 2025 0 5) = getFullYear (newDate 2025 9 26)"
    "getFullYear (newDate 2025 0 20) = getFullYear (newDate 2025 9 26)" by code_simp+
  have m: "getMonth (newDate 2025 0 5) < getMonth (newDate 2025 9 26)"
    "getMonth (newDate 2025 0 20) < getMonth (newDate 2025 9 26)" by code_simp+
  have s: "shiftYear (newDate 2025 0 5) 1 = newDate 2026 0 5"
    "shiftYear (newDate 2025 0 20) 1 = newDate 2026 0 20" by code_simp+
  have v: "newDate 2026 0 5 = 20458" "newDate 2026 0 20 = 20473"
    "newDate 2025 9 26 = 20387" "newDate 2026 2 28 = 20540" by code_simp+
  have a: "alignToWholeRange (Some (newDate 2025 0 5)) (Some (newDate 2025 0 20))
       (Some (newDate 2025 9 26)) (Some (newDate 2026 2 28)) =
     Some (newDate 2026 0 5, newDate 2026 0 20)"
    using alignToWholeRange_crossing [of "newDate 2025 9 26" "newDate 2026 2 28" "newDate 2025 0 5" "newDate 2025 0 20"] c
    by (simp add: Let_def y m s) (simp add: v)
  have n: "alignToWholeRange (Some (newDate 2025 3 1)) (Some (newDate 2025 3 30))
       (Some (newDate 2025 9 26)) (Some (newDate 2026 2 28)) = None" by code_simp
  show ?thesis using c y m s a n by blast
qed

section \<open>Properties of the date parser\<close>

text \<open>The two versions of the parser differ only where the pattern for \<open>YYYY/MM\<close> matches.\<close>

lemma parseDateLoose_versions_agree:
  assumes "\<forall>y m. rx_full re_ym_slash (trim (case s of None \<Rightarrow> [] | Some x \<Rightarrow> x)) \<noteq> Some [y, m]"
  shows "parseDateLoose e s = parseDateLoose_part000 e s"
proof -
  let ?t = "trim (case s of None \<Rightarrow> [] | Some x \<Rightarrow> x)"
  let ?md = "case rx_full re_md ?t of
        Some [m, d] \<Rightarrow> Some (newDate (currentYear e) (Number_digits m - 1) (Number_digits d))
      | _ \<Rightarrow> None"
  have ym: "(case rx_full re_ym_slash ?t of
        Some [y, m] \<Rightarrow> Some (newDate (Number_digits y) (Number_digits m - 1) 1)
      | _ \<Rightarrow> ?md) = ?md"
  proof (cases "rx_full re_ym_slash ?t")
    case None
    then show ?thesis by (simp only: option.case)
  next
    case (Some l)
    then have no: "\<forall>y m. l \<noteq> [y, m]" using assms by simp
    show ?thesis
    proof (cases l)
      case Nil
      then show ?thesis using Some by (simp only: option.case list.case)
    next
      case l1: (Cons a r1)
      show ?thesis
      proof (cases r1)
        case Nil
        then show ?thesis using Some l1 by (simp only: option.case list.case)
      next
        case l2: (Cons b r2)
        show ?thesis
        proof (cases r2)
          case Nil
          then show ?thesis using no l1 l2 by simp
        next
          case (Cons c r3)
          then show ?thesis using Some l1 l2 by (simp only: option.case list.case)
        qed
      qed
    qed
  qed
  show ?thesis
    unfolding parseDateLoose_def parseDateLoose_part000_def Let_def
    by (simp only: ym)
qed

text \<open>
  Claim C5. The claim: \<open>parseDateLoose\<close> accepts \<open>YYYY-MM-DD\<close>, \<open>YYYY/MM/DD\<close>, \<open>YYYY/MM\<close>
  (the day defaulting to 1) and a bare \<open>M/D\<close> or \<open>M-D\<close>, and nothing else. The parser of
  \<open>app.js\<close> has no pattern for \<open>YYYY/MM\<close>: on the input \<open>2025/06\<close> it returns \<open>null\<close>,
  where the earlier version of the same function returns the first of June 2025. The
  other three forms are read by both, text in no form and an absent value give \<open>null\<close>,
  and on every input that the pattern for \<open>YYYY/MM\<close> does not match the two versions
  return the same.
\<close>

theorem parseDateLoose_year_month_rejected:
  "parseDateLoose e (Some (asc ''2025/06'')) = None \<and>
   parseDateLoose_part000 e (Some (asc ''2025/06'')) = Some (newDate 2025 5 1) \<and>
   parseDateLoose e (Some (asc ''2025-06-01'')) = Some (newDate 2025 5 1) \<and>
   parseDateLoose e (Some (asc ''2025/6/1'')) = Some (newDate 2025 5 1) \<and>
   parseDateLoose e (Some (asc ''6/1'')) = Some (newDate (currentYear e) 5 1) \<and>
   parseDateLoose e (Some (asc ''6-1'')) = Some (newDate (currentYear e) 5 1) \<and>
   parseDateLoose e (Some (asc ''June 1'')) = None \<and>
   parseDateLoose e None = None \<and>
   ((\<forall>y m. rx_full re_ym_slash (trim (case s of None \<Rightarrow> [] | Some x \<Rightarrow> x)) \<noteq> Some [y, m]) \<longrightarrow>
      parseDateLoose e s = parseDateLoose_part000 e s)"
proof -
  have "parseDateLoose e (Some (asc ''2025/06'')) = None \<and>
   parseDateLoose_part000 e (Some (asc ''2025/06'')) = Some (newDate 2025 5 1) \<and>
   parseDateLoose e (Some (asc ''2025-06-01'')) = Some (newDate 2025 5 1) \<and>
   parseDateLoose e (Some (asc ''2025/6/1'')) = Some (newDate 2025 5 1) \<and>
   parseDateLoose e (Some (asc ''6/1'')) = Some (newDate (currentYear e) 5 1) \<and>
   parseDateLoose e (Some (asc ''6-1'')) = Some (newDate (currentYear e) 5 1) \<and>
   parseDateLoose e (Some (asc ''June 1'')) = None \<and>
   parseDateLoose e None = None"
    by code_simp
  then show ?thesis using parseDateLoose_versions_agree by blast
qed

theorem parseDateLoose_year_month_rejected_witness:
  "rx_full re_ym_slash (trim (asc ''2025-06-01'')) = None \<and>
   parseDateLoose ex_env (Some (asc ''2025-06-01'')) =
     parseDateLoose_part000 ex_env (Some (asc ''2025-06-01'')) \<and>
   rx_full re_ym_slash (trim (asc ''2025/06'')) = Some [asc ''2025'', asc ''06''] \<and>
   parseDateLoose ex_env (Some (asc ''2025/06'')) = None \<and>
   parseDateLoose_part000 ex_env (Some (asc ''2025/06'')) = Some (newDate 2025 5 1)"
proof -
  have n: "rx_full re_ym_slash (trim (asc ''2025-06-01'')) = None" by code_simp
  have m: "rx_full re_ym_slash (trim (asc ''2025/06'')) = Some [asc ''2025'', asc ''06'']"
    by code_simp
  note t = parseDateLoose_year_month_rejected [of ex_env "Some (asc ''2025-06-01'')"]
  have hyp: "\<forall>y m. rx_full re_ym_slash
      (trim (case Some (asc ''2025-06-01'') of None \<Rightarrow> [] | Some x \<Rightarrow> x)) \<noteq> Some [y, m]"
    using n by simp
  have imp: "(\<forall>y m. rx_full re_ym_slash
      (trim (case Some (asc ''2025-06-01'') of None \<Rightarrow> [] | Some x \<Rightarrow> x)) \<noteq> Some [y, m]) \<longrightarrow>
    parseDateLoose ex_env (Some (asc ''2025-06-01'')) =
      parseDateLoose_part000 ex_env (Some (asc ''2025-06-01''))"
    using t by blast
  have eq: "parseDateLoose ex_env (Some (asc ''2025-06-01'')) =
     parseDateLoose_part000 ex_env (Some (asc ''2025-06-01''))"
    using imp hyp by blast
  have a: "parseDateLoose ex_env (Some (asc ''2025/06'')) = None"
    and b: "parseDateLoose_part000 ex_env (Some (asc ''2025/06'')) = Some (newDate 2025 5 1)"
    using t by blast+
  show ?thesis by (intro conjI) (fact n eq m a b)+
qed

section \<open>Properties of the built table\<close>





















section \<open>Properties of the alias table\<close>

















text \<open>
  The two conditions on the place key are needed as well. Two places with one key share
  one entry of the alias table, which the later of them takes; and a place whose key is
  empty, such as the single middle dot U+30FB, resolves to the empty string.
\<close>

lemma resolvePlace_key_conditions_needed:
  "resolvePlace \<lparr>faresRows = [], routeMap = [], places = [asc ''Tokyo'', asc ''tokyo''],
       aliasToCanon = buildAliasDefaultsFromPlaces [asc ''Tokyo'', asc ''tokyo'']\<rparr> (asc ''Tokyo'') =
     asc ''tokyo'' \<and>
   resolvePlace \<lparr>faresRows = [], routeMap = [], places = [[12539]],
       aliasToCanon = buildAliasDefaultsFromPlaces [[12539]]\<rparr> [12539] = []"
  by code_simp

section \<open>Properties of the route index\<close>








section \<open>Properties of the lookup\<close>





section \<open>Properties of the table reader\<close>







end
